theory Spec2Isabelle
  imports Main "HOL-Library.Sublist"
begin

section \<open>JavaScript values and React elements\<close>

text \<open>
  Document fields that the renderers test for truthiness. The interfaces declare them
  as strings (\<^verbatim>\<open>hyperfileUrl: Hyperfile.HyperfileUrl\<close>), but the types are erased at run
  time and a document that has not been filled in yet reads the field as \<^verbatim>\<open>undefined\<close>;
  a destructuring default can make it \<^verbatim>\<open>null\<close>.
\<close>

datatype jsval = Undefined | Null | Str string

text \<open>JavaScript's ToBoolean on these values: the empty string is the only falsy string.\<close>

fun truthy :: "jsval \<Rightarrow> bool" where
  "truthy Undefined = False"
| "truthy Null = False"
| "truthy (Str s) = (s \<noteq> [])"

text \<open>\<^verbatim>\<open>a || b\<close>\<close>

definition js_or :: "jsval \<Rightarrow> jsval \<Rightarrow> jsval" where
  "js_or a b = (if truthy a then a else b)"

text \<open>
  A React element as JSX builds it: the component or tag, its props in the order written,
  and its children. A component that returns \<^verbatim>\<open>null\<close> returns \<open>None\<close>.
\<close>

datatype node =
    Elem string "(string \<times> pval) list" "node list"
  | Text string
  | Number nat
and pval =
    PVal jsval
  | PBool bool
  | PNum int
  | PNode node

section \<open>String.prototype.match with a pattern of ordinary characters\<close>

text \<open>
  \<^verbatim>\<open>s.match(p)\<close> with a string \<open>p\<close> compiles \<open>p\<close> to a regular expression and
  searches \<open>s\<close> from the left for the first position where it matches. A pattern made of
  characters that are not regular-expression syntax, such as \<^verbatim>\<open>'audio/'\<close>, matches
  exactly itself. The result is the index of the match, or \<open>None\<close> for \<^verbatim>\<open>null\<close>.
\<close>

fun js_match :: "string \<Rightarrow> string \<Rightarrow> nat option" where
  "js_match [] p = (if p = [] then Some 0 else None)"
| "js_match (c # cs) p =
     (if prefix p (c # cs) then Some 0 else map_option Suc (js_match cs p))"

section \<open>AudioContent.tsx\<close>

type_synonym HypermergeUrl = string

text \<open>The part of \<^verbatim>\<open>ContentProps\<close> (declared in Content.tsx) that the renderers read.\<close>

record ContentProps =
  hypermergeUrl :: HypermergeUrl

record AudioDoc =
  hyperfileUrl :: jsval

text \<open>
  Modelled from the spec: \<^verbatim>\<open>useDocument\<close> of Hooks.ts, which is the \<open>bind\<close> of the
  subscription manager seen from one render. It gives the current snapshot of the
  document behind the given id, and no snapshot when the store has none yet or when no
  id is given. The store is the first argument.
\<close>

fun useDocument :: "(HypermergeUrl \<rightharpoonup> 'd) \<Rightarrow> jsval \<Rightarrow> 'd option" where
  "useDocument docs (Str url) = docs url"
| "useDocument docs Undefined = None"
| "useDocument docs Null = None"

definition AudioContent :: "(HypermergeUrl \<rightharpoonup> AudioDoc) \<Rightarrow> ContentProps \<Rightarrow> node option" where
  "AudioContent docs props =
     (case useDocument docs (Str (hypermergeUrl props)) of
        None \<Rightarrow> None
      | Some doc \<Rightarrow>
          if \<not> truthy (hyperfileUrl doc) then None
          else Some (Elem ''div'' [(''className'', PVal (Str ''AudioContent''))]
                  [Elem ''audio'' [(''controls'', PBool True), (''src'', PVal (hyperfileUrl doc))] []]))"

text \<open>
  A component is a function object: the render function and the static properties
  assigned to it. A static that is never assigned reads as \<^verbatim>\<open>undefined\<close>, here \<open>None\<close>.
\<close>

record 's Component =
  render :: "'s \<Rightarrow> ContentProps \<Rightarrow> node option"
  minWidth :: "int option"
  minHeight :: "int option"
  maxWidth :: "int option"
  maxHeight :: "int option"
  defaultWidth :: "int option"
  defaultHeight :: "int option"

definition AudioContent_component :: "(HypermergeUrl \<rightharpoonup> AudioDoc) Component" where
  "AudioContent_component =
     \<lparr> render = AudioContent,
       minWidth = Some 15,
       minHeight = Some 4,
       maxWidth = None,
       maxHeight = Some 6,
       defaultWidth = Some 18,
       defaultHeight = Some 4 \<rparr>"

definition supportsMimeType :: "string \<Rightarrow> bool" where
  "supportsMimeType mimeType = (js_match mimeType ''audio/'' \<noteq> None)"

section \<open>contact/ContactViewer.tsx\<close>

text \<open>
  \<^verbatim>\<open>FileDoc\<close> is declared in the files content type; the viewer reads only its
  \<^verbatim>\<open>hyperfileUrl\<close>, so any record with that field stands for it.
\<close>

type_synonym 'a FileDoc = "'a AudioDoc_scheme"

text \<open>
  \<^verbatim>\<open>ContactDoc\<close> is declared in contact/index; these are the fields the viewer reads
  (\<^verbatim>\<open>doc.name\<close> is the field \<open>contact_name\<close>). \<^verbatim>\<open>devices\<close> and \<^verbatim>\<open>invites\<close> may be
  \<^verbatim>\<open>undefined\<close>; \<^verbatim>\<open>invites\<close> is an object from contact to the list of shares, read
  in key order by \<^verbatim>\<open>Object.entries\<close>.
\<close>

record ContactDoc =
  contact_name :: string
  avatarDocId :: jsval
  devices :: "HypermergeUrl list option"
  invites :: "(string \<times> string list) list option"

text \<open>
  \<^verbatim>\<open>createDocumentLink\<close> (ShareLink.ts) and \<^verbatim>\<open>DEFAULT_AVATAR_PATH\<close> (constants.ts) are
  imported from modules outside this development and are parameters here.
\<close>

definition renderDevices ::
  "(string \<Rightarrow> HypermergeUrl \<Rightarrow> string) \<Rightarrow> HypermergeUrl list option \<Rightarrow> HypermergeUrl \<Rightarrow> node" where
  "renderDevices createDocumentLink devs contactUrl =
     (case devs of
        None \<Rightarrow>
          Elem ''SecondaryText'' []
            [Text ''Something is wrong, you should always have a device!'']
      | Some ds \<Rightarrow>
          (let renderedDevices =
                 map (\<lambda>deviceId.
                        Elem ''Content''
                          [(''key'', PVal (Str deviceId)), (''context'', PVal (Str ''list'')),
                           (''url'', PVal (Str deviceId)), (''editable'', PBool True)] [])
                   (map (\<lambda>deviceUrl. createDocumentLink ''device'' deviceUrl) ds);
               title =
                 Elem ''Fragment'' []
                   [Elem ''ConnectionStatusBadge''
                      [(''size'', PVal (Str ''small'')), (''hover'', PBool False),
                       (''contactId'', PVal (Str contactUrl))] [],
                    Text ''Devices'']
           in Elem ''ListMenuSection'' [(''title'', PNode title)] renderedDevices))"

text \<open>The array that \<^verbatim>\<open>map\<close> returns is one child expression; its items are listed as the children.\<close>

definition renderShares ::
  "(string \<Rightarrow> HypermergeUrl \<Rightarrow> string) \<Rightarrow> (string \<times> string list) list option \<Rightarrow> node" where
  "renderShares createDocumentLink invs =
     Elem ''ListMenuSection'' [(''title'', PVal (Str ''Shares''))]
       (case invs of
          Some entries \<Rightarrow>
            map (\<lambda>(contact, shares).
                   Elem ''ListMenuItem'' [(''key'', PVal (Str contact))]
                     [Elem ''Content''
                        [(''context'', PVal (Str ''list'')),
                         (''url'', PVal (Str (createDocumentLink ''contact'' contact)))] [],
                      Elem ''SecondaryText'' [] [Number (length shares), Text '' items shared'']])
              entries
        | None \<Rightarrow> [Elem ''ListMenuItem'' [] [Elem ''Heading'' [] [Text ''No shares...'']]])"

text \<open>The element tree of the \<^verbatim>\<open>return\<close> statement, for a loaded contact and the avatar chosen.\<close>

definition ContactViewer_tree ::
  "(string \<Rightarrow> HypermergeUrl \<Rightarrow> string) \<Rightarrow> HypermergeUrl \<Rightarrow> ContactDoc \<Rightarrow> jsval \<Rightarrow> node" where
  "ContactViewer_tree createDocumentLink contactUrl doc img =
     Elem ''CenteredStack'' [(''centerText'', PBool False)]
       [Elem ''FillParent'' [(''maxWidth'', PNum 600)]
          [Elem ''ListMenu'' []
             [Elem ''ListMenuSection'' [(''title'', PVal (Str ''Display Name''))]
                [Elem ''ListMenuItem'' [] [Elem ''Heading'' [] [Text (contact_name doc)]]],
              Elem ''ListMenuSection'' [(''title'', PVal (Str ''Avatar''))]
                [Elem ''ListMenuItem'' [] [Elem ''Badge'' [(''img'', PVal img)] []]],
              renderDevices createDocumentLink (devices doc) contactUrl,
              renderShares createDocumentLink (invites doc)]]]"

definition ContactViewer ::
  "(string \<Rightarrow> HypermergeUrl \<Rightarrow> string) \<Rightarrow> string \<Rightarrow>
   (HypermergeUrl \<rightharpoonup> ContactDoc) \<Rightarrow> (HypermergeUrl \<rightharpoonup> 'a FileDoc) \<Rightarrow> ContentProps \<Rightarrow> node option" where
  "ContactViewer createDocumentLink DEFAULT_AVATAR_PATH contactDocs fileDocs props =
     (let contactUrl = hypermergeUrl props;
          doc = useDocument contactDocs (Str contactUrl);
          avatarImageDoc =
            useDocument fileDocs (case doc of None \<Rightarrow> Null | Some d \<Rightarrow> avatarDocId d);
          avatarHyperfileUrl =
            (case avatarImageDoc of
               None \<Rightarrow> Null
             | Some a \<Rightarrow> if hyperfileUrl a = Undefined then Null else hyperfileUrl a)
      in case doc of
           None \<Rightarrow> None
         | Some d \<Rightarrow>
             Some (ContactViewer_tree createDocumentLink contactUrl d
                     (js_or avatarHyperfileUrl (Str DEFAULT_AVATAR_PATH))))"

text \<open>
  The \<^verbatim>\<open>ContactViewer\<close> function object. ContactViewer.tsx assigns no static property to
  it, so every sizing static reads as \<^verbatim>\<open>undefined\<close>. What its hooks and imports
  supply is the first argument of \<open>render\<close>.
\<close>

definition ContactViewer_component ::
  "((string \<Rightarrow> HypermergeUrl \<Rightarrow> string) \<times> string \<times>
    (HypermergeUrl \<rightharpoonup> ContactDoc) \<times> (HypermergeUrl \<rightharpoonup> 'a FileDoc)) Component" where
  "ContactViewer_component =
     \<lparr> render = (\<lambda>(createDocumentLink, DEFAULT_AVATAR_PATH, contactDocs, fileDocs).
                   ContactViewer createDocumentLink DEFAULT_AVATAR_PATH contactDocs fileDocs),
       minWidth = None,
       minHeight = None,
       maxWidth = None,
       maxHeight = None,
       defaultWidth = None,
       defaultHeight = None \<rparr>"

section \<open>Errors of the resolution layer\<close>

datatype error = InvalidUrl | InvalidDescriptor | InvalidMutation

section \<open>URL codec\<close>

text \<open>
  Modelled from the spec: the URL codec (ShareLink.ts), of which only the caller
  \<^verbatim>\<open>createDocumentLink('device', deviceUrl)\<close> is at hand. The format is
  \<^verbatim>\<open>scheme://type/documentId[/extraSegment]*\<close>, where an empty type segment means that
  the type is to be inferred; the scheme is written \<^verbatim>\<open>scheme\<close> as the spec writes it.
  Absent extra segments are the empty sequence. Decoding trims blanks at both ends and
  normalises nothing else.
\<close>

type_synonym DocumentId = string
type_synonym PushpinUrl = string

text \<open>Modelled from the spec: the blanks that trimming removes, the ASCII white space.\<close>

definition is_space :: "char \<Rightarrow> bool" where
  "is_space c = (c = CHR '' '' \<or> c = CHR 0x09 \<or> c = CHR 0x0A \<or> c = CHR 0x0B
       \<or> c = CHR 0x0C \<or> c = CHR 0x0D)"

text \<open>Modelled from the spec: the trimming that decoding performs, at both ends of the string.\<close>

definition trim :: "string \<Rightarrow> string" where
  "trim s = rev (dropWhile is_space (rev (dropWhile is_space s)))"

text \<open>Modelled from the spec: the segments of a URL joined by the separator.\<close>

fun join :: "char \<Rightarrow> string list \<Rightarrow> string" where
  "join sep [] = []"
| "join sep [x] = x"
| "join sep (x # y # ys) = x @ sep # join sep (y # ys)"

text \<open>
  Modelled from the spec: a string cut at every separator; a string without one is a
  single segment.
\<close>

fun split_on :: "char \<Rightarrow> string \<Rightarrow> string list" where
  "split_on sep [] = [[]]"
| "split_on sep (c # cs) =
     (if c = sep then [] # split_on sep cs
      else (case split_on sep cs of
              [] \<Rightarrow> [[c]]
            | seg # segs \<Rightarrow> (c # seg) # segs))"

text \<open>Modelled from the spec: the scheme and its \<^verbatim>\<open>://\<close>, as the format writes them.\<close>

definition scheme_prefix :: string where
  "scheme_prefix = ''scheme://''"

text \<open>
  Modelled from the spec: \<open>encode\<close>, total on its inputs; an absent type is the empty
  segment.
\<close>

definition encode :: "string option \<Rightarrow> DocumentId \<Rightarrow> string list \<Rightarrow> PushpinUrl" where
  "encode type documentId extraSegments =
     scheme_prefix @
       join CHR ''/'' ((case type of None \<Rightarrow> [] | Some t \<Rightarrow> t) # documentId # extraSegments)"

text \<open>
  Modelled from the spec: \<open>decode\<close>, which fails with \<open>InvalidUrl\<close> without the prefix,
  without a document id segment, or with an empty one; an empty type segment is an absent
  type.
\<close>

definition decode :: "string \<Rightarrow> error + (string option \<times> DocumentId \<times> string list)" where
  "decode url =
     (let s = trim url in
      if \<not> prefix scheme_prefix s then Inl InvalidUrl
      else (case split_on CHR ''/'' (drop (length scheme_prefix) s) of
              t # documentId # extraSegments \<Rightarrow>
                if documentId = [] then Inl InvalidUrl
                else Inr (if t = [] then None else Some t, documentId, extraSegments)
            | _ \<Rightarrow> Inl InvalidUrl))"

text \<open>Modelled from the spec: a segment that ends in a blank, which trimming would remove.\<close>

definition ends_with_space :: "string \<Rightarrow> bool" where
  "ends_with_space s = (s \<noteq> [] \<and> is_space (last s))"

text \<open>
  Modelled from the spec: a well-formed tuple. A present type is a non-empty segment, the
  document id is a non-empty segment, no segment contains the separator, and the last
  segment does not end in a blank.
\<close>

definition well_formed :: "string option \<times> DocumentId \<times> string list \<Rightarrow> bool" where
  "well_formed x =
     (case x of (type, documentId, extraSegments) \<Rightarrow>
        (case type of None \<Rightarrow> True | Some t \<Rightarrow> t \<noteq> [] \<and> CHR ''/'' \<notin> set t)
        \<and> documentId \<noteq> [] \<and> CHR ''/'' \<notin> set documentId
        \<and> list_all (\<lambda>e. CHR ''/'' \<notin> set e) extraSegments
        \<and> \<not> ends_with_space (last (documentId # extraSegments)))"

section \<open>Type registry\<close>

text \<open>
  The object that a content-type module passes to \<^verbatim>\<open>ContentTypes.register\<close>. The key of
  the registry is \<^verbatim>\<open>type\<close> (the spec's descriptor name), \<^verbatim>\<open>contexts\<close> maps a context to
  the component mounted there (the spec's renderer variants), and the optional
  \<^verbatim>\<open>supportsMimeType\<close> is the MIME matcher. A context is the string that JSX passes as
  \<^verbatim>\<open>context="list"\<close>.
\<close>

record 'r ContentType =
  type :: string
  name :: string
  icon :: string
  contexts :: "(string \<times> 'r) list"
  supportsMimeType_opt :: "(string \<Rightarrow> bool) option"

text \<open>The argument of the \<^verbatim>\<open>ContentTypes.register\<close> call at the end of AudioContent.tsx.\<close>

definition audio_ContentType :: "(HypermergeUrl \<rightharpoonup> AudioDoc) Component ContentType" where
  "audio_ContentType =
     \<lparr> type = ''audio'',
       name = ''Audio'',
       icon = ''audio'',
       contexts = [(''workspace'', AudioContent_component), (''board'', AudioContent_component)],
       supportsMimeType_opt = Some supportsMimeType \<rparr>"

text \<open>
  Modelled from the spec: the registry of ContentTypes.ts, which is not part of this
  development. Its state is a table of descriptors in registration order, at most one
  per key.
\<close>

type_synonym 'r registry = "'r ContentType list"

text \<open>
  Modelled from the spec: insert the descriptor at the end, or replace the descriptor of
  the same key where that one stands.
\<close>

fun put :: "'r ContentType \<Rightarrow> 'r registry \<Rightarrow> 'r registry" where
  "put d [] = [d]"
| "put d (e # es) = (if type e = type d then d # es else e # put d es)"

text \<open>
  Modelled from the spec: \<open>register\<close>; a descriptor with an empty context mapping is
  rejected with \<open>InvalidDescriptor\<close>.
\<close>

definition register :: "'r ContentType \<Rightarrow> 'r registry \<Rightarrow> error + 'r registry" where
  "register d reg = (if contexts d = [] then Inl InvalidDescriptor else Inr (put d reg))"

text \<open>Modelled from the spec: \<open>lookupByName\<close>.\<close>

fun lookupByName :: "'r registry \<Rightarrow> string \<Rightarrow> 'r ContentType option" where
  "lookupByName [] n = None"
| "lookupByName (d # ds) n = (if type d = n then Some d else lookupByName ds n)"

text \<open>
  Modelled from the spec: a descriptor accepts a MIME type when it has a matcher and the
  matcher is true of that type.
\<close>

definition accepts :: "'r ContentType \<Rightarrow> string \<Rightarrow> bool" where
  "accepts d mime =
     (case supportsMimeType_opt d of None \<Rightarrow> False | Some matcher \<Rightarrow> matcher mime)"

text \<open>
  Modelled from the spec: \<open>lookupByMime\<close>, the scan in registration order for the first
  descriptor that accepts.
\<close>

fun lookupByMime :: "'r registry \<Rightarrow> string \<Rightarrow> 'r ContentType option" where
  "lookupByMime [] mime = None"
| "lookupByMime (d # ds) mime = (if accepts d mime then Some d else lookupByMime ds mime)"

section \<open>Resolver\<close>

text \<open>
  Modelled from the spec: the outcomes of the dispatcher (Content.tsx), of which only the
  props type and the callers \<^verbatim>\<open><Content context="list" url={...} />\<close> are at hand.
  They are values: the error of decoding, the two recoverable outcomes, nothing renderable
  while the type still waits for a snapshot, or the selected renderer bound to the
  document.
\<close>

datatype 'r resolution =
    Failed error
  | UnknownType
  | UnsupportedContext
  | Provisional
  | Mounted 'r DocumentId

text \<open>
  Modelled from the spec: the field of a snapshot that resolution reads; a record that
  extends this one carries the fields of its type.
\<close>

record Snapshot =
  mimeType :: "string option"

text \<open>Modelled from the spec: step 4 and 5 of \<open>resolve\<close>, the renderer variant of the context.\<close>

definition select_variant :: "'r ContentType \<Rightarrow> DocumentId \<Rightarrow> string \<Rightarrow> 'r resolution" where
  "select_variant d documentId context =
     (case map_of (contexts d) context of
        None \<Rightarrow> UnsupportedContext
      | Some renderer \<Rightarrow> Mounted renderer documentId)"

text \<open>
  Modelled from the spec: \<open>resolve\<close>, with the registry and the store's snapshots as
  arguments. A declared type without a descriptor and a snapshot without a MIME type
  resolve to \<open>UnknownType\<close>, as a MIME type that no descriptor accepts does.
\<close>

definition resolve ::
  "'r registry \<Rightarrow> (DocumentId \<rightharpoonup> 'a Snapshot_scheme) \<Rightarrow> PushpinUrl \<Rightarrow> string \<Rightarrow> 'r resolution" where
  "resolve reg store url context =
     (case decode url of
        Inl e \<Rightarrow> Failed e
      | Inr (ty, documentId, extraSegments) \<Rightarrow>
          (case ty of
             Some t \<Rightarrow>
               (case lookupByName reg t of
                  None \<Rightarrow> UnknownType
                | Some d \<Rightarrow> select_variant d documentId context)
           | None \<Rightarrow>
               (case store documentId of
                  None \<Rightarrow> Provisional
                | Some snapshot \<Rightarrow>
                    (case mimeType snapshot of
                       None \<Rightarrow> UnknownType
                     | Some mime \<Rightarrow>
                         (case lookupByMime reg mime of
                            None \<Rightarrow> UnknownType
                          | Some d \<Rightarrow> select_variant d documentId context)))))"

section \<open>Subscription manager\<close>

text \<open>
  Modelled from the spec: the state of the subscription manager (Hooks.ts) and of the
  document store, neither of which is part of this development. It holds the store's
  current snapshot of each document, the listeners registered with the store (one per
  active subscription, with the document it listens to), the snapshots delivered to each
  subscription so far (latest last), and the id that the next subscription gets.
\<close>

record 'snap manager =
  current :: "DocumentId \<rightharpoonup> 'snap"
  listeners :: "(nat \<times> DocumentId) list"
  delivered :: "nat \<Rightarrow> 'snap list"
  next_id :: nat

text \<open>
  Modelled from the spec: \<open>bind\<close> registers a listener and delivers the latest snapshot
  at once when there is one; it returns the current snapshot and the id of the new
  subscription, which its \<open>unbindFn\<close> carries.
\<close>

definition bind :: "DocumentId \<Rightarrow> 'snap manager \<Rightarrow> ('snap option \<times> nat) \<times> 'snap manager" where
  "bind documentId s =
     (let sid = next_id s
      in ((current s documentId, sid),
          s\<lparr> listeners := listeners s @ [(sid, documentId)],
             delivered := (delivered s)
               (sid := (case current s documentId of None \<Rightarrow> [] | Some snap \<Rightarrow> [snap])),
             next_id := Suc sid \<rparr>))"

text \<open>Modelled from the spec: \<open>unbindFn\<close> removes the listener of the subscription from the store.\<close>

definition unbindFn :: "nat \<Rightarrow> 'snap manager \<Rightarrow> 'snap manager" where
  "unbindFn sid s = s\<lparr> listeners := filter (\<lambda>(i, d). i \<noteq> sid) (listeners s) \<rparr>"

text \<open>
  Modelled from the spec: the store has a new version of a document; every listener on it
  receives the snapshot.
\<close>

definition produce :: "DocumentId \<Rightarrow> 'snap \<Rightarrow> 'snap manager \<Rightarrow> 'snap manager" where
  "produce documentId snap s =
     s\<lparr> current := (current s)(documentId \<mapsto> snap),
        delivered := (\<lambda>i. if (i, documentId) \<in> set (listeners s)
                            then delivered s i @ [snap] else delivered s i) \<rparr>"

text \<open>
  Modelled from the spec: \<open>changeFn\<close> hands a mutator to the store. A mutator that is
  malformed for the document (it has no result, or there is no document to change) fails
  with \<open>InvalidMutation\<close> and is not applied; otherwise the store produces the changed
  version.
\<close>

definition changeFn ::
  "DocumentId \<Rightarrow> ('snap \<Rightarrow> 'snap option) \<Rightarrow> 'snap manager \<Rightarrow> error + 'snap manager" where
  "changeFn documentId mutator s =
     (case current s documentId of
        None \<Rightarrow> Inl InvalidMutation
      | Some snap \<Rightarrow>
          (case mutator snap of
             None \<Rightarrow> Inl InvalidMutation
           | Some snap' \<Rightarrow> Inr (produce documentId snap' s)))"

text \<open>Modelled from the spec: the events of the manager.\<close>

datatype 'snap event =
    Bind DocumentId
  | Unbind nat
  | Produce DocumentId 'snap
  | Change DocumentId "'snap \<Rightarrow> 'snap option"

text \<open>Modelled from the spec: one event; a rejected change leaves the state as it is.\<close>

fun step :: "'snap manager \<Rightarrow> 'snap event \<Rightarrow> 'snap manager" where
  "step s (Bind documentId) = snd (bind documentId s)"
| "step s (Unbind sid) = unbindFn sid s"
| "step s (Produce documentId snap) = produce documentId snap s"
| "step s (Change documentId mutator) =
     (case changeFn documentId mutator s of Inl e \<Rightarrow> s | Inr s' \<Rightarrow> s')"

text \<open>Modelled from the spec: a run of events in order.\<close>

definition run :: "'snap manager \<Rightarrow> 'snap event list \<Rightarrow> 'snap manager" where
  "run s events = foldl step s events"

section \<open>Properties of the audio MIME matcher\<close>

lemma js_match_None_iff: "js_match s p = None \<longleftrightarrow> \<not> sublist p s"
  by (induction s) (auto simp: sublist_Cons_right)

text \<open>
  C9. For every string \<open>m\<close>, the audio type's \<open>supportsMimeType m\<close> is true exactly when
  \<open>m\<close> contains \<^verbatim>\<open>audio/\<close> as a contiguous substring at some position, not only as a
  prefix: it accepts \<^verbatim>\<open>video/x-audio/stream\<close> as well as \<^verbatim>\<open>audio/mp3\<close>, and rejects a
  string with no such substring.
\<close>

theorem supportsMimeType_iff_substring:
  "(supportsMimeType m \<longleftrightarrow> (\<exists>pre post. m = pre @ ''audio/'' @ post))
   \<and> supportsMimeType ''video/x-audio/stream''
   \<and> supportsMimeType ''audio/mp3''
   \<and> \<not> supportsMimeType ''image/png''"
proof -
  have general: "supportsMimeType m \<longleftrightarrow> (\<exists>pre post. m = pre @ ''audio/'' @ post)" for m
    unfolding supportsMimeType_def using js_match_None_iff [of m "''audio/''"]
    by (simp add: sublist_def)
  have "supportsMimeType ''video/x-audio/stream''"
    by (simp add: supportsMimeType_def)
  moreover have "supportsMimeType ''audio/mp3''"
    by (simp add: supportsMimeType_def)
  moreover have "\<not> supportsMimeType ''image/png''"
    by (simp add: supportsMimeType_def)
  ultimately show ?thesis using general by blast
qed

theorem supportsMimeType_iff_substring_witness:
  "supportsMimeType ''application/audio/x'' \<and> \<not> supportsMimeType ''audio''"
proof -
  have "''application/audio/x'' = ''application/'' @ ''audio/'' @ ''x''" by simp
  then have a: "supportsMimeType ''application/audio/x''"
    using supportsMimeType_iff_substring [of "''application/audio/x''"] by blast
  have "\<not> (\<exists>pre post. ''audio'' = pre @ ''audio/'' @ post)"
  proof
    assume "\<exists>pre post. ''audio'' = pre @ ''audio/'' @ post"
    then obtain pre post where "''audio'' = pre @ ''audio/'' @ post" by blast
    then have "length ''audio'' = length (pre @ ''audio/'' @ post)" by simp
    then show False by simp
  qed
  then have "\<not> supportsMimeType ''audio''"
    using supportsMimeType_iff_substring [of "''audio''"] by blast
  with a show ?thesis by blast
qed

section \<open>Rendering before and after a snapshot\<close>

text \<open>
  C10. For every loaded audio document whose \<open>hyperfileUrl\<close> is absent or falsy
  (\<^verbatim>\<open>undefined\<close>, \<^verbatim>\<open>null\<close> or the empty string), the audio renderer returns \<^verbatim>\<open>null\<close>:
  it builds no audio element and raises nothing. That a snapshot exists is not enough to
  render.
\<close>

theorem AudioContent_falsy_hyperfileUrl:
  assumes "docs (hypermergeUrl props) = Some doc"
    and "hyperfileUrl doc = Undefined \<or> hyperfileUrl doc = Null \<or> hyperfileUrl doc = Str []"
  shows "AudioContent docs props = None"
proof -
  from assms(2) have "\<not> truthy (hyperfileUrl doc)" by auto
  with assms(1) show ?thesis by (simp add: AudioContent_def)
qed

theorem AudioContent_falsy_hyperfileUrl_witness:
  "AudioContent [''doc123'' \<mapsto> \<lparr>hyperfileUrl = Str []\<rparr>] \<lparr>hypermergeUrl = ''doc123''\<rparr> = None"
  using AudioContent_falsy_hyperfileUrl
    [of "[''doc123'' \<mapsto> \<lparr>hyperfileUrl = Str []\<rparr>]" "\<lparr>hypermergeUrl = ''doc123''\<rparr>"
        "\<lparr>hyperfileUrl = Str []\<rparr>"]
  by simp

text \<open>
  C5. While the snapshot of a document is absent, rendering yields nothing renderable and
  is not an error: the audio renderer and the contact viewer both return \<^verbatim>\<open>null\<close>. Once
  a snapshot with a non-empty \<open>hyperfileUrl\<close> has arrived, the audio renderer returns the
  audio element on that url.
\<close>

theorem absent_snapshot_renders_nothing:
  "(docs (hypermergeUrl props) = None \<longrightarrow> AudioContent docs props = None)
   \<and> (contactDocs (hypermergeUrl props) = None \<longrightarrow>
        ContactViewer createDocumentLink DEFAULT_AVATAR_PATH contactDocs fileDocs props = None)
   \<and> (u \<noteq> [] \<longrightarrow>
        AudioContent (docs(hypermergeUrl props \<mapsto> \<lparr>hyperfileUrl = Str u\<rparr>)) props =
          Some (Elem ''div'' [(''className'', PVal (Str ''AudioContent''))]
                  [Elem ''audio'' [(''controls'', PBool True), (''src'', PVal (Str u))] []]))"
  by (simp add: AudioContent_def ContactViewer_def)

theorem absent_snapshot_renders_nothing_witness:
  "AudioContent Map.empty \<lparr>hypermergeUrl = ''doc123''\<rparr> = None
   \<and> ContactViewer (\<lambda>t u. u) ''avatar.png'' Map.empty (Map.empty :: string \<rightharpoonup> AudioDoc)
        \<lparr>hypermergeUrl = ''doc123''\<rparr> = None
   \<and> AudioContent [''doc123'' \<mapsto> \<lparr>hyperfileUrl = Str ''blob://abc''\<rparr>] \<lparr>hypermergeUrl = ''doc123''\<rparr> =
        Some (Elem ''div'' [(''className'', PVal (Str ''AudioContent''))]
                [Elem ''audio'' [(''controls'', PBool True), (''src'', PVal (Str ''blob://abc''))] []])"
  using absent_snapshot_renders_nothing
    [of Map.empty "\<lparr>hypermergeUrl = ''doc123''\<rparr>" Map.empty "\<lambda>t u. u" "''avatar.png''"
        "Map.empty :: string \<rightharpoonup> AudioDoc" "''blob://abc''"]
  by simp

section \<open>The contact's avatar\<close>

text \<open>
  C6. For every loaded contact document whose \<open>avatarDocId\<close> is absent (\<^verbatim>\<open>undefined\<close> or
  \<^verbatim>\<open>null\<close>), the contact viewer does not fail: it returns its element tree, and the avatar
  badge in it shows \<open>DEFAULT_AVATAR_PATH\<close>.
\<close>

theorem ContactViewer_default_avatar:
  assumes "contactDocs (hypermergeUrl props) = Some doc"
    and "avatarDocId doc = Undefined \<or> avatarDocId doc = Null"
  shows "ContactViewer createDocumentLink DEFAULT_AVATAR_PATH contactDocs fileDocs props =
           Some (Elem ''CenteredStack'' [(''centerText'', PBool False)]
             [Elem ''FillParent'' [(''maxWidth'', PNum 600)]
                [Elem ''ListMenu'' []
                   [Elem ''ListMenuSection'' [(''title'', PVal (Str ''Display Name''))]
                      [Elem ''ListMenuItem'' [] [Elem ''Heading'' [] [Text (contact_name doc)]]],
                    Elem ''ListMenuSection'' [(''title'', PVal (Str ''Avatar''))]
                      [Elem ''ListMenuItem'' []
                         [Elem ''Badge'' [(''img'', PVal (Str DEFAULT_AVATAR_PATH))] []]],
                    renderDevices createDocumentLink (devices doc) (hypermergeUrl props),
                    renderShares createDocumentLink (invites doc)]]])"
proof -
  from assms(2) have "useDocument fileDocs (avatarDocId doc) = None" by auto
  with assms(1) show ?thesis
    by (simp add: ContactViewer_def ContactViewer_tree_def js_or_def)
qed

theorem ContactViewer_default_avatar_witness:
  "ContactViewer (\<lambda>t u. u) ''avatar.png''
     [''c1'' \<mapsto> \<lparr>contact_name = ''Ann'', avatarDocId = Undefined, devices = None, invites = None\<rparr>]
     [''a1'' \<mapsto> \<lparr>hyperfileUrl = Str ''blob://pic''\<rparr>]
     \<lparr>hypermergeUrl = ''c1''\<rparr> =
   Some (Elem ''CenteredStack'' [(''centerText'', PBool False)]
     [Elem ''FillParent'' [(''maxWidth'', PNum 600)]
        [Elem ''ListMenu'' []
           [Elem ''ListMenuSection'' [(''title'', PVal (Str ''Display Name''))]
              [Elem ''ListMenuItem'' [] [Elem ''Heading'' [] [Text ''Ann'']]],
            Elem ''ListMenuSection'' [(''title'', PVal (Str ''Avatar''))]
              [Elem ''ListMenuItem'' [] [Elem ''Badge'' [(''img'', PVal (Str ''avatar.png''))] []]],
            Elem ''SecondaryText'' []
              [Text ''Something is wrong, you should always have a device!''],
            Elem ''ListMenuSection'' [(''title'', PVal (Str ''Shares''))]
              [Elem ''ListMenuItem'' [] [Elem ''Heading'' [] [Text ''No shares...'']]]]]])"
  using ContactViewer_default_avatar
    [of "[''c1'' \<mapsto> \<lparr>contact_name = ''Ann'', avatarDocId = Undefined, devices = None, invites = None\<rparr>]"
        "\<lparr>hypermergeUrl = ''c1''\<rparr>"
        "\<lparr>contact_name = ''Ann'', avatarDocId = Undefined, devices = None, invites = None\<rparr>"
        "\<lambda>t u. u" "''avatar.png''" "[''a1'' \<mapsto> \<lparr>hyperfileUrl = Str ''blob://pic''\<rparr>]"]
  by (simp add: renderDevices_def renderShares_def)

section \<open>The codec: joining and splitting\<close>

lemma split_on_nonempty: "split_on sep s \<noteq> []"
  by (induction s) (auto split: list.splits)

lemma split_on_no_sep: "sep \<notin> set s \<Longrightarrow> split_on sep s = [s]"
  by (induction s) auto

lemma split_on_append:
  "sep \<notin> set x \<Longrightarrow> split_on sep (x @ sep # rest) = x # split_on sep rest"
  by (induction x) auto

lemma split_on_join:
  "xs \<noteq> [] \<Longrightarrow> \<forall>x \<in> set xs. sep \<notin> set x \<Longrightarrow> split_on sep (join sep xs) = xs"
proof (induction sep xs rule: join.induct)
  case (1 sep) then show ?case by simp
next
  case (2 sep x) then show ?case by (simp add: split_on_no_sep)
next
  case (3 sep x y ys)
  then show ?case by (simp add: split_on_append)
qed

lemma join_Cons_Cons: "join sep ((c # x) # xs) = c # join sep (x # xs)"
  by (cases xs) auto

lemma join_split_on: "join sep (split_on sep s) = s"
proof (induction s)
  case Nil
  show ?case by simp
next
  case (Cons c cs)
  obtain seg segs where sp: "split_on sep cs = seg # segs"
    using split_on_nonempty [of sep cs] by (cases "split_on sep cs") auto
  with Cons show ?case by (auto simp: join_Cons_Cons)
qed

lemma split_on_segments: "x \<in> set (split_on sep s) \<Longrightarrow> sep \<notin> set x"
proof (induction s arbitrary: x)
  case Nil
  then show ?case by simp
next
  case (Cons c cs)
  obtain seg segs where sp: "split_on sep cs = seg # segs"
    using split_on_nonempty [of sep cs] by (cases "split_on sep cs") auto
  from Cons.IH [of seg] sp have seg: "sep \<notin> set seg" by simp
  from Cons.IH sp have segs: "\<And>y. y \<in> set segs \<Longrightarrow> sep \<notin> set y" by simp
  from Cons.prems sp seg segs show ?case by (auto split: if_splits)
qed

lemma last_join:
  "xs \<noteq> [] \<Longrightarrow> last xs \<noteq> [] \<Longrightarrow> join sep xs \<noteq> [] \<and> last (join sep xs) = last (last xs)"
  by (induction sep xs rule: join.induct) auto

lemma last_join_empty:
  "xs \<noteq> [] \<Longrightarrow> last xs = [] \<Longrightarrow> join sep xs = [] \<or> last (join sep xs) = sep"
  by (induction sep xs rule: join.induct) auto

lemma dropWhile_self: "xs = [] \<or> \<not> P (hd xs) \<Longrightarrow> dropWhile P xs = xs"
  by (cases xs) auto

lemma trim_stable:
  assumes "s \<noteq> []" "\<not> is_space (hd s)" "\<not> is_space (last s)"
  shows "trim s = s"
proof -
  from assms have "dropWhile is_space s = s" by (simp add: dropWhile_self)
  moreover from assms have "dropWhile is_space (rev s) = rev s"
    by (simp add: dropWhile_self hd_rev)
  ultimately show ?thesis by (simp add: trim_def)
qed

lemma trim_last: "trim s \<noteq> [] \<Longrightarrow> \<not> is_space (last (trim s))"
proof -
  assume a: "trim s \<noteq> []"
  let ?d = "dropWhile is_space (rev (dropWhile is_space s))"
  from a have ne: "?d \<noteq> []" by (simp add: trim_def)
  then have "\<not> is_space (hd ?d)" by (rule hd_dropWhile)
  moreover from ne have "last (trim s) = hd ?d" by (simp add: trim_def last_rev)
  ultimately show ?thesis by simp
qed

lemma not_space_slash: "\<not> is_space CHR ''/''"
  by (simp add: is_space_def)

lemma encode_trim_stable:
  assumes "documentId \<noteq> []" "\<not> ends_with_space (last (documentId # extraSegments))"
  shows "trim (encode ty documentId extraSegments) = encode ty documentId extraSegments"
proof -
  let ?segs = "(case ty of None \<Rightarrow> [] | Some t \<Rightarrow> t) # documentId # extraSegments"
  let ?j = "join CHR ''/'' ?segs"
  have l: "last ?segs = last (documentId # extraSegments)" by simp
  have jne: "?j \<noteq> []" using assms(1) by (cases "case ty of None \<Rightarrow> [] | Some t \<Rightarrow> t") auto
  have "\<not> is_space (last ?j)"
  proof (cases "last ?segs = []")
    case True
    then have "?j = [] \<or> last ?j = CHR ''/''" by (intro last_join_empty) simp_all
    with jne show ?thesis by (simp add: not_space_slash)
  next
    case False
    then have "last ?j = last (last ?segs)" using last_join [of ?segs "CHR ''/''"] by simp
    with False assms(2) l show ?thesis by (simp add: ends_with_space_def)
  qed
  with jne have "\<not> is_space (last (scheme_prefix @ ?j))" by simp
  moreover have "\<not> is_space (hd (scheme_prefix @ ?j))" by (simp add: scheme_prefix_def is_space_def)
  moreover have "scheme_prefix @ ?j \<noteq> []" by (simp add: scheme_prefix_def)
  ultimately have "trim (scheme_prefix @ ?j) = scheme_prefix @ ?j" by (intro trim_stable)
  then show ?thesis by (simp add: encode_def)
qed

lemma decode_encode:
  assumes "well_formed (ty, documentId, extraSegments)"
  shows "decode (encode ty documentId extraSegments) = Inr (ty, documentId, extraSegments)"
proof -
  let ?t = "case ty of None \<Rightarrow> [] | Some t \<Rightarrow> t"
  let ?segs = "?t # documentId # extraSegments"
  from assms have d: "documentId \<noteq> []" and e: "\<not> ends_with_space (last (documentId # extraSegments))"
    by (simp_all add: well_formed_def)
  from assms have "\<forall>x \<in> set ?segs. CHR ''/'' \<notin> set x"
    by (auto simp: well_formed_def list_all_iff split: option.splits)
  then have sp: "split_on CHR ''/'' (join CHR ''/'' ?segs) = ?segs"
    by (intro split_on_join) simp_all
  from assms have t: "(if ?t = [] then None else Some ?t) = ty"
    by (auto simp: well_formed_def split: option.splits)
  have tr: "trim (encode ty documentId extraSegments) = scheme_prefix @ join CHR ''/'' ?segs"
    using encode_trim_stable [OF d e, of ty] by (simp add: encode_def)
  show ?thesis
    unfolding decode_def tr Let_def using sp d t by simp
qed

lemma decode_Inr_encode:
  assumes "decode url = Inr (ty, documentId, extraSegments)"
  shows "well_formed (ty, documentId, extraSegments) \<and> trim url = encode ty documentId extraSegments"
proof -
  let ?s = "trim url"
  let ?rest = "drop (length scheme_prefix) ?s"
  from assms have p: "prefix scheme_prefix ?s"
    by (auto simp: decode_def Let_def split: if_splits)
  then have s: "?s = scheme_prefix @ ?rest"
    by (metis append_eq_conv_conj prefixE)
  from assms p obtain t where
    sp: "split_on CHR ''/'' ?rest = t # documentId # extraSegments"
    and d: "documentId \<noteq> []" and ty: "ty = (if t = [] then None else Some t)"
    by (auto simp: decode_def Let_def split: if_splits list.splits)
  have j: "join CHR ''/'' (t # documentId # extraSegments) = ?rest"
    using join_split_on [of "CHR ''/''" ?rest] sp by simp
  have tt: "(case ty of None \<Rightarrow> [] | Some t \<Rightarrow> t) = t" using ty by simp
  have enc: "?s = encode ty documentId extraSegments"
    using s j tt by (simp add: encode_def)
  have nos: "\<And>x. x \<in> set (t # documentId # extraSegments) \<Longrightarrow> CHR ''/'' \<notin> set x"
    using split_on_segments [of _ "CHR ''/''" ?rest] sp by simp
  have "\<not> ends_with_space (last (documentId # extraSegments))"
  proof
    assume es: "ends_with_space (last (documentId # extraSegments))"
    define segs where "segs = t # documentId # extraSegments"
    have ls: "last segs = last (documentId # extraSegments)" by (simp add: segs_def)
    from es ls have ne: "last segs \<noteq> []" by (simp add: ends_with_space_def)
    have "segs \<noteq> []" by (simp add: segs_def)
    from last_join [OF this ne, of "CHR ''/''"] j [folded segs_def] ls
    have "?rest \<noteq> []" and "last ?rest = last (last (documentId # extraSegments))"
      by metis+
    with s have "last ?s = last (last (documentId # extraSegments))" and "?s \<noteq> []"
      by (metis last_append, metis append_is_Nil_conv)
    with trim_last [of url] es show False by (simp add: ends_with_space_def)
  qed
  with d ty nos enc show ?thesis
    by (auto simp: well_formed_def list_all_iff)
qed

lemma decode_error: "decode url = Inl e \<Longrightarrow> e = InvalidUrl"
  by (auto simp: decode_def Let_def split: if_splits list.splits)

lemma decode_no_prefix: "\<not> prefix scheme_prefix (trim url) \<Longrightarrow> decode url = Inl InvalidUrl"
  by (simp add: decode_def)

lemma decode_empty_documentId:
  assumes "trim url = scheme_prefix @ t @ CHR ''/'' # rest" and "CHR ''/'' \<notin> set t"
    and "rest = [] \<or> hd rest = CHR ''/''"
  shows "decode url = Inl InvalidUrl"
proof -
  from assms(3) obtain segs where "split_on CHR ''/'' rest = [] # segs"
    by (cases rest) auto
  with assms(2) have "split_on CHR ''/'' (t @ CHR ''/'' # rest) = t # [] # segs"
    by (simp add: split_on_append)
  with assms(1) show ?thesis by (simp add: decode_def)
qed

lemma decode_not_encoding:
  assumes "\<not> (\<exists>ty documentId extraSegments.
              well_formed (ty, documentId, extraSegments)
              \<and> trim url = encode ty documentId extraSegments)"
  shows "decode url = Inl InvalidUrl"
proof (cases "decode url")
  case (Inl e)
  then show ?thesis using decode_error by blast
next
  case (Inr x)
  obtain ty documentId extraSegments where "x = (ty, documentId, extraSegments)"
    by (cases x) auto
  with Inr assms decode_Inr_encode show ?thesis by blast
qed

section \<open>The codec: round trip and rejection\<close>

text \<open>
  C1. For every well-formed tuple of an optional type, a document id and extra segments,
  decoding the PushpinUrl that encoding produces gives the same tuple back.
\<close>

theorem decode_encode_roundtrip:
  assumes "well_formed (ty, documentId, extraSegments)"
  shows "decode (encode ty documentId extraSegments) = Inr (ty, documentId, extraSegments)"
  using assms by (rule decode_encode)

theorem decode_encode_roundtrip_witness:
  "well_formed (Some ''audio'', ''doc123'', [''a'', ''b''])
   \<and> encode (Some ''audio'') ''doc123'' [''a'', ''b''] = ''scheme://audio/doc123/a/b''
   \<and> decode ''scheme://audio/doc123/a/b'' = Inr (Some ''audio'', ''doc123'', [''a'', ''b''])"
proof -
  have w: "well_formed (Some ''audio'', ''doc123'', [''a'', ''b''])"
    by (simp add: well_formed_def ends_with_space_def is_space_def)
  have e: "encode (Some ''audio'') ''doc123'' [''a'', ''b''] = ''scheme://audio/doc123/a/b''"
    by (simp add: encode_def scheme_prefix_def)
  from decode_encode_roundtrip [OF w] e w show ?thesis by simp
qed

text \<open>
  C2. Decoding fails with \<open>InvalidUrl\<close>, and returns no tuple, for every string that
  (after trimming) lacks the scheme prefix, for every string whose document id segment is
  empty, and for every other string that is not the encoding of a well-formed tuple;
  \<^verbatim>\<open>not-a-valid-url\<close> is such a string.
\<close>

theorem decode_invalid:
  "(\<not> prefix scheme_prefix (trim url) \<longrightarrow> decode url = Inl InvalidUrl)
   \<and> ((\<exists>t rest. trim url = scheme_prefix @ t @ CHR ''/'' # rest \<and> CHR ''/'' \<notin> set t
          \<and> (rest = [] \<or> hd rest = CHR ''/'')) \<longrightarrow> decode url = Inl InvalidUrl)
   \<and> (\<not> (\<exists>ty documentId extraSegments.
            well_formed (ty, documentId, extraSegments)
            \<and> trim url = encode ty documentId extraSegments) \<longrightarrow> decode url = Inl InvalidUrl)
   \<and> decode ''not-a-valid-url'' = Inl InvalidUrl"
proof -
  have "decode ''not-a-valid-url'' = Inl InvalidUrl"
    by (simp add: decode_def trim_def is_space_def scheme_prefix_def)
  with decode_no_prefix [of url] decode_empty_documentId [of url] decode_not_encoding [of url]
  show ?thesis by blast
qed

theorem decode_invalid_witness:
  "decode ''audio/doc123'' = Inl InvalidUrl \<and> decode ''scheme://audio//x'' = Inl InvalidUrl"
proof -
  have "\<not> prefix scheme_prefix (trim ''audio/doc123'')"
    by (simp add: trim_def is_space_def scheme_prefix_def)
  with decode_invalid [of "''audio/doc123''"] have a: "decode ''audio/doc123'' = Inl InvalidUrl"
    by blast
  have "trim ''scheme://audio//x'' = scheme_prefix @ ''audio'' @ CHR ''/'' # ''/x''"
    by (simp add: trim_def is_space_def scheme_prefix_def)
  then have "\<exists>t rest. trim ''scheme://audio//x'' = scheme_prefix @ t @ CHR ''/'' # rest
      \<and> CHR ''/'' \<notin> set t \<and> (rest = [] \<or> hd rest = CHR ''/'')"
    by (intro exI [of _ "''audio''"] exI [of _ "''/x''"]) simp
  with decode_invalid [of "''scheme://audio//x''"]
  have "decode ''scheme://audio//x'' = Inl InvalidUrl" by blast
  with a show ?thesis by blast
qed

section \<open>The registry\<close>

lemma lookupByMime_None: "lookupByMime reg mime = None \<longleftrightarrow> (\<forall>d \<in> set reg. \<not> accepts d mime)"
  by (induction reg) auto

lemma lookupByMime_Some:
  "lookupByMime reg mime = Some d \<Longrightarrow>
     \<exists>i < length reg. reg ! i = d \<and> accepts d mime \<and> (\<forall>j < i. \<not> accepts (reg ! j) mime)"
proof (induction reg)
  case Nil
  then show ?case by simp
next
  case (Cons e es)
  show ?case
  proof (cases "accepts e mime")
    case True
    with Cons.prems have "e = d" by simp
    with True have "(e # es) ! 0 = d \<and> accepts d mime \<and> (\<forall>j < 0. \<not> accepts ((e # es) ! j) mime)"
      by simp
    then show ?thesis by blast
  next
    case False
    with Cons obtain i where i: "i < length es" "es ! i = d" "accepts d mime"
      "\<forall>j < i. \<not> accepts (es ! j) mime" by auto
    have "\<forall>j < Suc i. \<not> accepts ((e # es) ! j) mime"
    proof (intro allI impI)
      fix j assume "j < Suc i"
      with False i(4) show "\<not> accepts ((e # es) ! j) mime" by (cases j) auto
    qed
    with i have "Suc i < length (e # es) \<and> (e # es) ! Suc i = d \<and> accepts d mime
        \<and> (\<forall>j < Suc i. \<not> accepts ((e # es) ! j) mime)" by simp
    then show ?thesis by blast
  qed
qed

lemma accepts_audio: "accepts audio_ContentType mime = supportsMimeType mime"
  by (simp add: accepts_def audio_ContentType_def)

text \<open>
  C3. For every registry state and every MIME string, \<open>lookupByMime\<close> returns the first
  descriptor in registration order whose matcher accepts the string, and nothing when no
  registered descriptor accepts it. With an image type registered before the audio type,
  \<^verbatim>\<open>audio/mp3\<close> finds the audio descriptor.
\<close>

theorem lookupByMime_first_match:
  "(case lookupByMime reg mime of
      None \<Rightarrow> \<forall>d \<in> set reg. \<not> accepts d mime
    | Some d \<Rightarrow> \<exists>i < length reg. reg ! i = d \<and> accepts d mime
                  \<and> (\<forall>j < i. \<not> accepts (reg ! j) mime))
   \<and> (register image_type [] = Inr reg1 \<and> register audio_ContentType reg1 = Inr reg2
        \<and> \<not> accepts image_type ''audio/mp3''
        \<longrightarrow> lookupByMime reg2 ''audio/mp3'' = Some audio_ContentType)"
proof -
  have general: "case lookupByMime reg mime of
      None \<Rightarrow> \<forall>d \<in> set reg. \<not> accepts d mime
    | Some d \<Rightarrow> \<exists>i < length reg. reg ! i = d \<and> accepts d mime
                  \<and> (\<forall>j < i. \<not> accepts (reg ! j) mime)"
    using lookupByMime_None [of reg mime] lookupByMime_Some [of reg mime]
    by (cases "lookupByMime reg mime") auto
  have example: "lookupByMime reg2 ''audio/mp3'' = Some audio_ContentType"
    if r1: "register image_type [] = Inr reg1" and r2: "register audio_ContentType reg1 = Inr reg2"
      and n: "\<not> accepts image_type ''audio/mp3''"
  proof -
    have a: "accepts audio_ContentType ''audio/mp3''"
      by (simp add: accepts_audio supportsMimeType_def)
    from r1 have "reg1 = [image_type]" by (auto simp: register_def split: if_splits)
    with r2 have "reg2 = [audio_ContentType] \<or> reg2 = [image_type, audio_ContentType]"
      by (auto simp: register_def split: if_splits)
    with a n show ?thesis by auto
  qed
  from general example show ?thesis by blast
qed


theorem lookupByMime_first_match_witness:
  "lookupByMime
     [\<lparr>type = ''image'', name = ''Image'', icon = ''image'',
        contexts = [(''workspace'', AudioContent_component)],
        supportsMimeType_opt = Some (\<lambda>m. js_match m ''image/'' \<noteq> None)\<rparr>,
      audio_ContentType] ''audio/mp3'' = Some audio_ContentType
   \<and> lookupByMime [audio_ContentType] ''text/plain'' = None"
proof -
  let ?image = "\<lparr>type = ''image'', name = ''Image'', icon = ''image'',
        contexts = [(''workspace'', AudioContent_component)],
        supportsMimeType_opt = Some (\<lambda>m. js_match m ''image/'' \<noteq> None)\<rparr>"
  have r1: "register ?image [] = Inr [?image]"
    by (simp add: register_def)
  have r2: "register audio_ContentType [?image] = Inr [?image, audio_ContentType]"
    by (simp add: register_def audio_ContentType_def)
  have n: "\<not> accepts ?image ''audio/mp3''"
    by (simp add: accepts_def)
  have "\<not> supportsMimeType ''text/plain''"
    by (simp add: supportsMimeType_def)
  then have none: "lookupByMime [audio_ContentType] ''text/plain'' = None"
    by (simp add: accepts_audio)
  from lookupByMime_first_match [of "[audio_ContentType]" "''text/plain''"] r1 r2 n none
  show ?thesis by blast
qed

section \<open>Sizing metadata\<close>

lemma lookupByName_put: "lookupByName (put d reg) (type d) = Some d"
  by (induction reg) auto

lemma type_audio: "type audio_ContentType = ''audio''"
  by (simp add: audio_ContentType_def)

lemma audio_renderers:
  "(context, renderer) \<in> set (contexts audio_ContentType) \<Longrightarrow> renderer = AudioContent_component"
  by (auto simp: audio_ContentType_def)

text \<open>
  Sizing statics are not required of a registered renderer. A contact type whose
  workspace renderer is \<open>ContactViewer\<close> is accepted by \<open>register\<close>, and that renderer
  declares none of \<open>minWidth\<close>, \<open>minHeight\<close>, \<open>defaultWidth\<close>, \<open>defaultHeight\<close>.
\<close>

theorem registered_renderers_sizing_counterexample:
  "register
     \<lparr>type = ''contact'', name = ''Contact'', icon = ''contact'',
      contexts = [(''workspace'',
        ContactViewer_component ::
          ((string \<Rightarrow> HypermergeUrl \<Rightarrow> string) \<times> string \<times>
           (HypermergeUrl \<rightharpoonup> ContactDoc) \<times> (HypermergeUrl \<rightharpoonup> AudioDoc)) Component)],
      supportsMimeType_opt = None\<rparr> []
   = Inr [\<lparr>type = ''contact'', name = ''Contact'', icon = ''contact'',
           contexts = [(''workspace'', ContactViewer_component)],
           supportsMimeType_opt = None\<rparr>]
   \<and> minWidth
        (ContactViewer_component ::
          ((string \<Rightarrow> HypermergeUrl \<Rightarrow> string) \<times> string \<times>
           (HypermergeUrl \<rightharpoonup> ContactDoc) \<times> (HypermergeUrl \<rightharpoonup> AudioDoc)) Component) = None
   \<and> minHeight
        (ContactViewer_component ::
          ((string \<Rightarrow> HypermergeUrl \<Rightarrow> string) \<times> string \<times>
           (HypermergeUrl \<rightharpoonup> ContactDoc) \<times> (HypermergeUrl \<rightharpoonup> AudioDoc)) Component) = None
   \<and> defaultWidth
        (ContactViewer_component ::
          ((string \<Rightarrow> HypermergeUrl \<Rightarrow> string) \<times> string \<times>
           (HypermergeUrl \<rightharpoonup> ContactDoc) \<times> (HypermergeUrl \<rightharpoonup> AudioDoc)) Component) = None
   \<and> defaultHeight
        (ContactViewer_component ::
          ((string \<Rightarrow> HypermergeUrl \<Rightarrow> string) \<times> string \<times>
           (HypermergeUrl \<rightharpoonup> ContactDoc) \<times> (HypermergeUrl \<rightharpoonup> AudioDoc)) Component) = None"
  by (simp add: register_def ContactViewer_component_def)

text \<open>
  C8, amended. The audio renderer declares \<open>minWidth = 15\<close>, \<open>minHeight = 4\<close>,
  \<open>maxHeight = 6\<close>, \<open>defaultWidth = 18\<close>, \<open>defaultHeight = 4\<close> and no \<open>maxWidth\<close>; and in
  every registry state, once the audio type is registered, it is the descriptor found
  under \<^verbatim>\<open>audio\<close> and the renderer of each of its contexts declares these values, so
  \<open>minWidth\<close>, \<open>minHeight\<close>, \<open>defaultWidth\<close> and \<open>defaultHeight\<close> are all present.
\<close>

theorem registered_renderers_sizing:
  "(register audio_ContentType reg = Inr reg' \<longrightarrow>
      lookupByName reg' ''audio'' = Some audio_ContentType
      \<and> contexts audio_ContentType \<noteq> []
      \<and> (\<forall>(context, renderer) \<in> set (contexts audio_ContentType).
            minWidth renderer = Some 15 \<and> minHeight renderer = Some 4
            \<and> maxWidth renderer = None \<and> maxHeight renderer = Some 6
            \<and> defaultWidth renderer = Some 18 \<and> defaultHeight renderer = Some 4))
   \<and> minWidth AudioContent_component = Some 15
   \<and> minHeight AudioContent_component = Some 4
   \<and> maxWidth AudioContent_component = None
   \<and> maxHeight AudioContent_component = Some 6
   \<and> defaultWidth AudioContent_component = Some 18
   \<and> defaultHeight AudioContent_component = Some 4"
proof -
  have statics: "minWidth AudioContent_component = Some 15 \<and> minHeight AudioContent_component = Some 4
      \<and> maxWidth AudioContent_component = None \<and> maxHeight AudioContent_component = Some 6
      \<and> defaultWidth AudioContent_component = Some 18
      \<and> defaultHeight AudioContent_component = Some 4"
    by (simp add: AudioContent_component_def)
  have found: "lookupByName reg' ''audio'' = Some audio_ContentType"
    if "register audio_ContentType reg = Inr reg'"
  proof -
    from that have "reg' = put audio_ContentType reg"
      by (simp add: register_def split: if_splits)
    with lookupByName_put [of audio_ContentType reg] show ?thesis
      by (simp add: type_audio)
  qed
  have ne: "contexts audio_ContentType \<noteq> []"
    by (simp add: audio_ContentType_def)
  have each: "\<forall>(context, renderer) \<in> set (contexts audio_ContentType).
            minWidth renderer = Some 15 \<and> minHeight renderer = Some 4
            \<and> maxWidth renderer = None \<and> maxHeight renderer = Some 6
            \<and> defaultWidth renderer = Some 18 \<and> defaultHeight renderer = Some 4"
    using audio_renderers statics by blast
  from statics found ne each show ?thesis by blast
qed

theorem registered_renderers_sizing_witness:
  "register audio_ContentType
     [\<lparr>type = ''image'', name = ''Image'', icon = ''image'',
        contexts = [(''workspace'', AudioContent_component)], supportsMimeType_opt = None\<rparr>]
   = Inr [\<lparr>type = ''image'', name = ''Image'', icon = ''image'',
            contexts = [(''workspace'', AudioContent_component)], supportsMimeType_opt = None\<rparr>,
          audio_ContentType]
   \<and> lookupByName
        [\<lparr>type = ''image'', name = ''Image'', icon = ''image'',
           contexts = [(''workspace'', AudioContent_component)], supportsMimeType_opt = None\<rparr>,
         audio_ContentType] ''audio'' = Some audio_ContentType
   \<and> map_option minWidth (map_of (contexts audio_ContentType) ''board'') = Some (Some 15)
   \<and> map_option defaultHeight (map_of (contexts audio_ContentType) ''workspace'') = Some (Some 4)"
proof -
  let ?image = "\<lparr>type = ''image'', name = ''Image'', icon = ''image'',
        contexts = [(''workspace'', AudioContent_component)], supportsMimeType_opt = None\<rparr>"
  have r: "register audio_ContentType [?image] = Inr [?image, audio_ContentType]"
    by (simp add: register_def audio_ContentType_def)
  have b: "map_of (contexts audio_ContentType) ''board'' = Some AudioContent_component"
    and w: "map_of (contexts audio_ContentType) ''workspace'' = Some AudioContent_component"
    by (simp_all add: audio_ContentType_def)
  from registered_renderers_sizing [of "[?image]" "[?image, audio_ContentType]"] r
  have "lookupByName [?image, audio_ContentType] ''audio'' = Some audio_ContentType"
    and "minWidth AudioContent_component = Some 15"
    and "defaultHeight AudioContent_component = Some 4"
    by blast+
  with r b w show ?thesis by simp
qed

section \<open>The resolver\<close>

lemma select_variant_unsupported:
  "map_of (contexts d) context = None \<Longrightarrow> select_variant d documentId context = UnsupportedContext"
  by (simp add: select_variant_def)

lemma lookupByName_audio: "lookupByName [audio_ContentType] ''audio'' = Some audio_ContentType"
  by (simp add: audio_ContentType_def)

lemma audio_contexts:
  "map_of (contexts audio_ContentType) context = None \<longleftrightarrow> context \<noteq> ''workspace'' \<and> context \<noteq> ''board''"
  by (simp add: audio_ContentType_def)

text \<open>
  C4. For every URL whose resolved type has a descriptor (the declared type by name, or
  the type inferred from the MIME type of the snapshot) and every context that the
  descriptor's contexts do not contain, \<open>resolve\<close> returns the recoverable outcome
  \<open>UnsupportedContext\<close>, which is a result and not an error. The audio type registers the
  contexts \<^verbatim>\<open>workspace\<close> and \<^verbatim>\<open>board\<close> only, so an audio URL resolves to
  \<open>UnsupportedContext\<close> in every other context.
\<close>

theorem resolve_unsupported_context:
  "(decode url = Inr (ty, documentId, extraSegments)
    \<and> ((\<exists>t. ty = Some t \<and> lookupByName reg t = Some d)
       \<or> (\<exists>snapshot mime. ty = None \<and> store documentId = Some snapshot
             \<and> mimeType snapshot = Some mime \<and> lookupByMime reg mime = Some d))
    \<and> map_of (contexts d) context = None
    \<longrightarrow> resolve reg store url context = UnsupportedContext)
   \<and> (well_formed (Some ''audio'', documentId', []) \<and> context' \<noteq> ''workspace'' \<and> context' \<noteq> ''board''
      \<longrightarrow> resolve [audio_ContentType] store (encode (Some ''audio'') documentId' []) context'
            = UnsupportedContext)"
proof -
  have general: "resolve reg store url context = UnsupportedContext"
    if "decode url = Inr (ty, documentId, extraSegments)"
      and "(\<exists>t. ty = Some t \<and> lookupByName reg t = Some d)
       \<or> (\<exists>snapshot mime. ty = None \<and> store documentId = Some snapshot
             \<and> mimeType snapshot = Some mime \<and> lookupByMime reg mime = Some d)"
      and "map_of (contexts d) context = None"
    using that by (auto simp: resolve_def select_variant_unsupported)
  have audio: "resolve [audio_ContentType] store (encode (Some ''audio'') documentId' []) context'
            = UnsupportedContext"
    if w: "well_formed (Some ''audio'', documentId', [])"
      and c: "context' \<noteq> ''workspace''" "context' \<noteq> ''board''"
  proof -
    from c have "map_of (contexts audio_ContentType) context' = None"
      by (simp add: audio_contexts)
    then show ?thesis
      by (simp add: resolve_def decode_encode [OF w] lookupByName_audio select_variant_unsupported
          del: lookupByName.simps)
  qed
  from general audio show ?thesis by blast
qed

theorem resolve_unsupported_context_witness:
  "resolve [audio_ContentType] (Map.empty :: string \<rightharpoonup> Snapshot) ''scheme://audio/doc123'' ''list''
      = UnsupportedContext
   \<and> resolve [audio_ContentType] [''doc123'' \<mapsto> \<lparr>mimeType = Some ''audio/mp3''\<rparr>]
        ''scheme:///doc123'' ''badge'' = UnsupportedContext"
proof -
  have w: "well_formed (Some ''audio'', ''doc123'', [])"
    by (simp add: well_formed_def ends_with_space_def is_space_def)
  have e: "encode (Some ''audio'') ''doc123'' [] = ''scheme://audio/doc123''"
    by (simp add: encode_def scheme_prefix_def)
  have d: "decode ''scheme:///doc123'' = Inr (None, ''doc123'', [])"
    by (simp add: decode_def trim_def is_space_def scheme_prefix_def)
  have l: "lookupByMime [audio_ContentType] ''audio/mp3'' = Some audio_ContentType"
    by (simp add: accepts_audio supportsMimeType_def)
  have c: "map_of (contexts audio_ContentType) ''badge'' = None"
    by (simp add: audio_contexts)
  from resolve_unsupported_context
    [of "''scheme:///doc123''" None "''doc123''" "[]" "[audio_ContentType]" audio_ContentType
        "[''doc123'' \<mapsto> \<lparr>mimeType = Some ''audio/mp3''\<rparr>]" "''badge''" "''doc123''" "''list''"]
    d l c
  have a: "resolve [audio_ContentType] [''doc123'' \<mapsto> \<lparr>mimeType = Some ''audio/mp3''\<rparr>]
        ''scheme:///doc123'' ''badge'' = UnsupportedContext"
    by simp
  from resolve_unsupported_context
    [of "''x''" None "''x''" "[]" "[]" audio_ContentType "Map.empty :: string \<rightharpoonup> Snapshot"
        "''x''" "''doc123''" "''list''"] w e
  have "resolve [audio_ContentType] (Map.empty :: string \<rightharpoonup> Snapshot) ''scheme://audio/doc123'' ''list''
      = UnsupportedContext"
    by simp
  with a show ?thesis by blast
qed

section \<open>Subscriptions\<close>

lemma unbindFn_idem: "unbindFn sid (unbindFn sid s) = unbindFn sid s"
  by (simp add: unbindFn_def)

lemma unbindFn_fields:
  "sid \<notin> fst ` set (listeners (unbindFn sid s))"
  "next_id (unbindFn sid s) = next_id s"
  "delivered (unbindFn sid s) = delivered s"
  by (auto simp: unbindFn_def)

lemma step_next_id: "next_id s \<le> next_id (step s e)"
  by (cases e) (auto simp: bind_def Let_def unbindFn_def produce_def changeFn_def
      split: option.splits)

lemma run_next_id: "next_id s \<le> next_id (run s events)"
proof (induction events arbitrary: s)
  case Nil
  show ?case by (simp add: run_def)
next
  case (Cons e es)
  have "next_id s \<le> next_id (step s e)" by (rule step_next_id)
  also have "\<dots> \<le> next_id (run (step s e) es)" by (rule Cons.IH)
  finally show ?case by (simp add: run_def)
qed

lemma step_unbound:
  assumes "sid \<notin> fst ` set (listeners s)" and "sid < next_id s"
  shows "sid \<notin> fst ` set (listeners (step s e)) \<and> sid < next_id (step s e)
         \<and> delivered (step s e) sid = delivered s sid"
proof (cases e)
  case (Bind documentId)
  with assms show ?thesis by (auto simp: bind_def Let_def)
next
  case (Unbind i)
  with assms show ?thesis by (auto simp: unbindFn_def)
next
  case (Produce documentId snap)
  with assms show ?thesis by (force simp: produce_def)
next
  case (Change documentId mutator)
  with assms show ?thesis
    by (force simp: changeFn_def produce_def split: option.splits)
qed

lemma run_unbound:
  "sid \<notin> fst ` set (listeners s) \<Longrightarrow> sid < next_id s \<Longrightarrow>
     delivered (run s events) sid = delivered s sid"
proof (induction events arbitrary: s)
  case Nil
  show ?case by (simp add: run_def)
next
  case (Cons e es)
  from step_unbound [OF Cons.prems, of e] Cons.IH [of "step s e"]
  show ?case by (simp add: run_def)
qed

lemma bind_next_id: "bind documentId s = ((snap, sid), s') \<Longrightarrow> sid < next_id s'"
  by (auto simp: bind_def Let_def)

text \<open>
  C7. For every subscription: after the first call of its \<open>unbindFn\<close> no snapshot is
  delivered to it again, whatever happens afterwards (new versions from the store,
  changes, other subscriptions, further calls of \<open>unbindFn\<close>), and calling \<open>unbindFn\<close>
  again changes nothing.
\<close>

theorem unbindFn_stops_delivery:
  assumes "bind documentId s0 = ((snap, sid), s1)"
  shows "delivered (run (unbindFn sid (run s1 before)) after) sid = delivered (run s1 before) sid
         \<and> unbindFn sid (unbindFn sid (run s1 before)) = unbindFn sid (run s1 before)"
proof -
  let ?s = "run s1 before"
  from assms have "sid < next_id s1" by (rule bind_next_id)
  also have "\<dots> \<le> next_id ?s" by (rule run_next_id)
  finally have "sid < next_id (unbindFn sid ?s)" by (simp add: unbindFn_fields)
  with unbindFn_fields(1) [of sid ?s]
  have "delivered (run (unbindFn sid ?s) after) sid = delivered (unbindFn sid ?s) sid"
    by (rule run_unbound)
  then show ?thesis by (simp add: unbindFn_fields unbindFn_idem)
qed

theorem unbindFn_stops_delivery_witness:
  "bind ''doc123''
     (\<lparr>current = Map.empty, listeners = [], delivered = (\<lambda>i. []), next_id = 0\<rparr> :: nat manager) =
     ((None, 0),
      \<lparr>current = Map.empty, listeners = [(0, ''doc123'')], delivered = (\<lambda>i. []), next_id = 1\<rparr>)
   \<and> delivered
        (run \<lparr>current = Map.empty, listeners = [(0, ''doc123'')], delivered = (\<lambda>i. []), next_id = 1\<rparr>
           [Produce ''doc123'' (1::nat), Unbind 0, Produce ''doc123'' 2, Unbind 0,
            Produce ''doc123'' 3]) 0 = [1]"
proof -
  let ?s0 = "\<lparr>current = Map.empty, listeners = [], delivered = (\<lambda>i. []), next_id = 0\<rparr>
               :: nat manager"
  let ?s1 = "\<lparr>current = Map.empty, listeners = [(0, ''doc123'')], delivered = (\<lambda>i. []),
                next_id = 1\<rparr> :: nat manager"
  have b: "bind ''doc123'' ?s0 = ((None, 0), ?s1)"
    by (simp add: bind_def fun_eq_iff)
  have r: "run ?s1 [Produce ''doc123'' 1, Unbind 0, Produce ''doc123'' 2, Unbind 0, Produce ''doc123'' 3]
      = run (unbindFn 0 (run ?s1 [Produce ''doc123'' 1])) [Produce ''doc123'' 2, Unbind 0, Produce ''doc123'' 3]"
    by (simp add: run_def)
  have d: "delivered (run ?s1 [Produce ''doc123'' 1]) 0 = [1]"
    by (simp add: run_def produce_def)
  from unbindFn_stops_delivery [OF b, of "[Produce ''doc123'' 1]"
      "[Produce ''doc123'' 2, Unbind 0, Produce ''doc123'' 3]"]
  have a: "delivered (run (unbindFn 0 (run ?s1 [Produce ''doc123'' 1]))
             [Produce ''doc123'' 2, Unbind 0, Produce ''doc123'' 3]) 0
           = delivered (run ?s1 [Produce ''doc123'' 1]) 0"
    by (rule conjunct1)
  have "delivered (run ?s1 [Produce ''doc123'' 1, Unbind 0, Produce ''doc123'' 2, Unbind 0,
            Produce ''doc123'' 3]) 0 = [1]"
    by (simp only: r a d)
  with b show ?thesis by (rule conjI)
qed

end
